theory Spec2Isabelle
  imports Main
begin

section \<open>The account server of \<^verbatim>\<open>src/server/server.js\<close>\<close>

text \<open>
  The server keeps one collection of user documents and answers four routes:
  registration, login, the profile of the bearer of a token, and a payment stub.
  The model below follows the handlers line by line. The collection is a list of
  documents in the collection's natural order; every handler takes the collection
  and returns its reply together with the collection it leaves behind. What the
  handlers call in libraries (bcrypt, jsonwebtoken, the database driver,
  \<^verbatim>\<open>Math.random\<close>) is a field of the environment \<open>env\<close>: a call that can
  reject returns a sum, \<open>Inl\<close> being the exception thrown.
\<close>

subsection \<open>JavaScript values\<close>

text \<open>
  A textual field of a request body or of a document is \<open>string option\<close>;
  \<open>None\<close> stands for \<^verbatim>\<open>undefined\<close> and \<^verbatim>\<open>null\<close>. A body field that is not a
  JSON string is outside this model. \<open>truthy\<close> is JavaScript's truthiness on
  such a value: only a non-empty string is truthy.
\<close>

definition truthy :: "string option \<Rightarrow> bool" where
  "truthy v = (case v of None \<Rightarrow> False | Some s \<Rightarrow> s \<noteq> [])"

text \<open>
  A \<^verbatim>\<open>Number\<close> field of a document: absent, \<^verbatim>\<open>null\<close>, or an IEEE 754
  double. Every finite double is an integer multiple of \<open>2\<^sup>-\<^sup>1\<^sup>0\<^sup>7\<^sup>4\<close>, the least
  positive double, and \<open>Finite k\<close> stands for \<open>k \<times> 2\<^sup>-\<^sup>1\<^sup>0\<^sup>7\<^sup>4\<close>; \<open>js_int n\<close>
  is the integer \<open>n\<close>. (Negative zero is not kept apart from zero: \<^verbatim>\<open>||\<close> and
  the addition of a positive number treat the two alike.)
\<close>

datatype jsnum = NumUndefined | NumNull | NaN | PosInfinity | NegInfinity | Finite int

definition js_int :: "int \<Rightarrow> jsnum" where
  "js_int n = Finite (n * 2 ^ 1074)"

text \<open>The number of binary digits of a natural number.\<close>

fun bit_length :: "nat \<Rightarrow> nat" where
  "bit_length n = (if n = 0 then 0 else Suc (bit_length (n div 2)))"

text \<open>\<open>k / 2\<^sup>s\<close> rounded to the nearest integer, a tie going to the even one.\<close>

definition round_even :: "int \<Rightarrow> nat \<Rightarrow> int" where
  "round_even k s =
     (let q = k div 2 ^ s; r = k mod 2 ^ s
      in if 2 * r < 2 ^ s then q
         else if 2 ^ s < 2 * r then q + 1
         else if even q then q else q + 1)"

text \<open>
  The double nearest to \<open>k \<times> 2\<^sup>-\<^sup>1\<^sup>0\<^sup>7\<^sup>4\<close> (round to nearest, ties to even, the
  rounding of every arithmetic operation of JavaScript): the 53 leading binary
  digits are kept, and a result of magnitude \<open>2\<^sup>1\<^sup>0\<^sup>2\<^sup>4\<close> or more is infinite.
\<close>

definition to_double :: "int \<Rightarrow> jsnum" where
  "to_double k =
     (let s = bit_length (nat \<bar>k\<bar>) - 53; r = round_even k s * 2 ^ s
      in if 2 ^ 2098 \<le> r then PosInfinity
         else if r \<le> - (2 ^ 2098) then NegInfinity
         else Finite r)"

text \<open>\<^verbatim>\<open>x || 0\<close> on a number field: \<^verbatim>\<open>undefined\<close>, \<^verbatim>\<open>null\<close>, \<^verbatim>\<open>NaN\<close> and
  zero are falsy and give \<open>0\<close>, every other number gives itself.\<close>

fun or_zero :: "jsnum \<Rightarrow> jsnum" where
  "or_zero NumUndefined = Finite 0"
| "or_zero NumNull = Finite 0"
| "or_zero NaN = Finite 0"
| "or_zero PosInfinity = PosInfinity"
| "or_zero NegInfinity = NegInfinity"
| "or_zero (Finite k) = Finite k"

text \<open>\<^verbatim>\<open>x + n\<close> for an integer literal \<open>n\<close>: \<^verbatim>\<open>undefined\<close> becomes
  \<^verbatim>\<open>NaN\<close>, \<^verbatim>\<open>null\<close> becomes 0, an infinity stays, and a finite sum is rounded to
  a double.\<close>

fun js_plus :: "jsnum \<Rightarrow> int \<Rightarrow> jsnum" where
  "js_plus NumUndefined n = NaN"
| "js_plus NumNull n = to_double (n * 2 ^ 1074)"
| "js_plus NaN n = NaN"
| "js_plus PosInfinity n = PosInfinity"
| "js_plus NegInfinity n = NegInfinity"
| "js_plus (Finite k) n = to_double (k + n * 2 ^ 1074)"

text \<open>\<^verbatim>\<open>s.split(sep)\<close> for a one-character separator: every occurrence separates.\<close>

fun js_split :: "char \<Rightarrow> string \<Rightarrow> string list" where
  "js_split sep [] = [[]]"
| "js_split sep (c # cs) =
     (if c = sep then [] # js_split sep cs
      else (case js_split sep cs of
              [] \<Rightarrow> [[c]]
            | w # ws \<Rightarrow> (c # w) # ws))"

text \<open>\<^verbatim>\<open>xs[i]\<close>: \<^verbatim>\<open>undefined\<close> out of range.\<close>

definition index :: "'a list \<Rightarrow> nat \<Rightarrow> 'a option" where
  "index xs i = (if i < length xs then Some (xs ! i) else None)"

text \<open>\<^verbatim>\<open>s.substring(a, b)\<close>: both indices are clamped to the length, and swapped
  when \<open>a > b\<close>.\<close>

definition substring :: "nat \<Rightarrow> nat \<Rightarrow> string \<Rightarrow> string" where
  "substring a b s = take (max a b - min a b) (drop (min a b) s)"

text \<open>\<^verbatim>\<open>s.toUpperCase()\<close> on ASCII text.\<close>

definition upper_char :: "char \<Rightarrow> char" where
  "upper_char c =
     (if (97::nat) \<le> of_char c \<and> of_char c \<le> (122::nat)
      then char_of (of_char c - (32::nat)) else c)"

definition toUpperCase :: "string \<Rightarrow> string" where
  "toUpperCase s = map upper_char s"

subsection \<open>The data model\<close>

text \<open>The schema \<^verbatim>\<open>UserSchema\<close>, with the document's \<^verbatim>\<open>_id\<close> as \<open>uid\<close>.\<close>

record user =
  uid :: nat
  email :: string
  passwordHash :: "string option"
  fullName :: "string option"
  phone :: "string option"
  country :: "string option"
  city :: "string option"
  zipCode :: "string option"
  referralCode :: "string option"
  referredBy :: "string option"
  balance :: jsnum
  points :: jsnum
  createdAt :: nat

text \<open>The fields the handlers read from \<^verbatim>\<open>req.body\<close>.\<close>

record body =
  body_email :: "string option"
  body_password :: "string option"
  body_fullName :: "string option"
  body_phone :: "string option"
  body_country :: "string option"
  body_city :: "string option"
  body_zipCode :: "string option"
  body_referralCode :: "string option"

text \<open>The payload \<^verbatim>\<open>{id, email}\<close> the handlers sign into a token.\<close>

record payload =
  payload_id :: nat
  payload_email :: string

text \<open>A request as the middleware sees it: the \<^verbatim>\<open>authorization\<close> header and
  \<^verbatim>\<open>req.user\<close>.\<close>

record request =
  authorization :: "string option"
  req_user :: "payload option"

text \<open>What a handler sends: \<^verbatim>\<open>res.status(n).json({error})\<close>, or one of the
  success bodies.\<close>

datatype reply =
    Error nat string
  | Registered string string string
  | LoggedIn string string
  | Profile user
  | Message string

subsection \<open>The environment\<close>

datatype thrown = MongoError | BcryptError | JsonWebTokenError | TypeError

text \<open>The places where a handler awaits the database.\<close>

datatype dbcall = FindByEmail | FindSponsor | SaveSponsor | SaveUser | FindById

text \<open>
  \<open>db_fails\<close> says which database calls of the request reject;
  \<open>bcrypt_hash\<close> is \<^verbatim>\<open>bcrypt.hash(password, rounds)\<close>, \<open>bcrypt_compare\<close> is
  \<^verbatim>\<open>bcrypt.compare(password, hash)\<close>, \<open>jwt_sign\<close> is \<^verbatim>\<open>jwt.sign\<close> with the
  server's secret and a validity of seven days, \<open>jwt_check\<close> is what
  \<^verbatim>\<open>jwt.verify\<close> does with a non-empty token string (signature and expiry),
  \<open>random36\<close> is the string \<^verbatim>\<open>Math.random().toString(36)\<close> evaluates to,
  \<open>new_id\<close> is the \<^verbatim>\<open>_id\<close> given to a new document and \<open>date_now\<close> is
  \<^verbatim>\<open>Date.now\<close>.
\<close>

record env =
  db_fails :: "dbcall \<Rightarrow> bool"
  bcrypt_hash :: "string \<Rightarrow> nat \<Rightarrow> thrown + string"
  bcrypt_compare :: "string \<Rightarrow> string option \<Rightarrow> thrown + bool"
  jwt_sign :: "payload \<Rightarrow> thrown + string"
  jwt_check :: "string \<Rightarrow> thrown + payload"
  random36 :: string
  new_id :: nat
  date_now :: nat

subsection \<open>The collection\<close>

text \<open>\<^verbatim>\<open>User.findOne(filter)\<close> and \<^verbatim>\<open>User.findById(id)\<close>: the first document that
  matches, \<^verbatim>\<open>null\<close> when there is none.\<close>

definition User_findOne ::
  "env \<Rightarrow> dbcall \<Rightarrow> (user \<Rightarrow> bool) \<Rightarrow> user list \<Rightarrow> thrown + user option" where
  "User_findOne e c p s = (if db_fails e c then Inl MongoError else Inr (find p s))"

text \<open>The update a \<^verbatim>\<open>save()\<close> of a loaded document sends when only its balance
  was assigned: the balance of the document with that \<^verbatim>\<open>_id\<close>.\<close>

fun set_balance :: "nat \<Rightarrow> jsnum \<Rightarrow> user list \<Rightarrow> user list" where
  "set_balance i b [] = []"
| "set_balance i b (x # xs) =
     (if uid x = i then x\<lparr>balance := b\<rparr> # xs else x # set_balance i b xs)"

definition save_sponsor :: "env \<Rightarrow> user \<Rightarrow> user list \<Rightarrow> thrown + user list" where
  "save_sponsor e sponsor s =
     (if db_fails e SaveSponsor then Inl MongoError
      else Inr (set_balance (uid sponsor) (balance sponsor) s))"

text \<open>The \<^verbatim>\<open>save()\<close> of a new document: an insert, which the unique indexes on
  \<^verbatim>\<open>_id\<close> and \<^verbatim>\<open>email\<close> refuse for a duplicate.\<close>

definition save_new :: "env \<Rightarrow> user \<Rightarrow> user list \<Rightarrow> thrown + user list" where
  "save_new e u s =
     (if db_fails e SaveUser then Inl MongoError
      else (case find (\<lambda>x. uid x = uid u \<or> email x = email u) s of
              Some x \<Rightarrow> Inl MongoError
            | None \<Rightarrow> Inr (s @ [u])))"

subsection \<open>Registration\<close>

definition genReferral :: "env \<Rightarrow> string" where
  "genReferral e = ''GG'' @ toUpperCase (substring 2 8 (random36 e))"

definition server_error :: reply where
  "server_error = Error 500 ''Server error''"

text \<open>Lines 69 to 76: the sponsor's commission.\<close>

definition credit_sponsor :: "env \<Rightarrow> string option \<Rightarrow> user list \<Rightarrow> thrown + user list" where
  "credit_sponsor e code s =
     (if truthy code then
        (case User_findOne e FindSponsor (\<lambda>x. referralCode x = code) s of
           Inl err \<Rightarrow> Inl err
         | Inr None \<Rightarrow> Inr s
         | Inr (Some sponsor) \<Rightarrow>
             save_sponsor e (sponsor\<lparr>balance := js_plus (or_zero (balance sponsor)) 1000\<rparr>) s)
      else Inr s)"

text \<open>Lines 60 to 66: the new document, with the schema's defaults.\<close>

definition new_User :: "env \<Rightarrow> body \<Rightarrow> string \<Rightarrow> string \<Rightarrow> string \<Rightarrow> user" where
  "new_User e b em hash userReferral =
     \<lparr> uid = new_id e, email = em, passwordHash = Some hash,
       fullName = body_fullName b, phone = body_phone b, country = body_country b,
       city = body_city b, zipCode = body_zipCode b,
       referralCode = Some userReferral,
       referredBy = (if truthy (body_referralCode b) then body_referralCode b else None),
       balance = js_int 0, points = js_int 0, createdAt = date_now e \<rparr>"

text \<open>The handler of \<^verbatim>\<open>POST /api/auth/register\<close>. Every exception inside the
  \<^verbatim>\<open>try\<close> block ends in the reply 500, with the collection as the writes before
  the exception left it.\<close>

definition register_valid :: "env \<Rightarrow> user list \<Rightarrow> body \<Rightarrow> string \<Rightarrow> string \<Rightarrow> reply \<times> user list" where
  "register_valid e s b em pw =
     (case User_findOne e FindByEmail (\<lambda>x. email x = em) s of
        Inl err \<Rightarrow> (server_error, s)
      | Inr (Some ex) \<Rightarrow> (Error 400 ''Email already registered'', s)
      | Inr None \<Rightarrow>
          (case bcrypt_hash e pw 10 of
             Inl err \<Rightarrow> (server_error, s)
           | Inr hash \<Rightarrow>
               (case credit_sponsor e (body_referralCode b) s of
                  Inl err \<Rightarrow> (server_error, s)
                | Inr s1 \<Rightarrow>
                    (case save_new e (new_User e b em hash (genReferral e)) s1 of
                       Inl err \<Rightarrow> (server_error, s1)
                     | Inr s2 \<Rightarrow>
                         (case jwt_sign e \<lparr>payload_id = new_id e, payload_email = em\<rparr> of
                            Inl err \<Rightarrow> (server_error, s2)
                          | Inr token \<Rightarrow>
                              (Registered ''Registered successfully'' token (genReferral e),
                               s2))))))"

definition register :: "env \<Rightarrow> user list \<Rightarrow> body \<Rightarrow> reply \<times> user list" where
  "register e s b =
     (case body_email b of
        None \<Rightarrow> (Error 400 ''Email and password required'', s)
      | Some em \<Rightarrow>
          (case body_password b of
             None \<Rightarrow> (Error 400 ''Email and password required'', s)
           | Some pw \<Rightarrow>
               if em = [] \<or> pw = [] then (Error 400 ''Email and password required'', s)
               else register_valid e s b em pw))"

subsection \<open>Login\<close>

definition login :: "env \<Rightarrow> user list \<Rightarrow> body \<Rightarrow> reply" where
  "login e s b =
     (case body_email b of
        None \<Rightarrow> Error 400 ''Email and password required''
      | Some em \<Rightarrow>
          (case body_password b of
             None \<Rightarrow> Error 400 ''Email and password required''
           | Some pw \<Rightarrow>
               if em = [] \<or> pw = [] then Error 400 ''Email and password required''
               else
                 (case User_findOne e FindByEmail (\<lambda>x. email x = em) s of
                    Inl err \<Rightarrow> server_error
                  | Inr None \<Rightarrow> Error 400 ''Invalid credentials''
                  | Inr (Some u) \<Rightarrow>
                      (case bcrypt_compare e pw (passwordHash u) of
                         Inl err \<Rightarrow> server_error
                       | Inr ok \<Rightarrow>
                           if ok then
                             (case jwt_sign e \<lparr>payload_id = uid u, payload_email = email u\<rparr> of
                                Inl err \<Rightarrow> server_error
                              | Inr token \<Rightarrow> LoggedIn ''Login successful'' token)
                           else Error 400 ''Invalid credentials''))))"

subsection \<open>The session guard and the routes behind it\<close>

text \<open>\<^verbatim>\<open>jwt.verify(token, secret)\<close>: jsonwebtoken throws for a token that is
  \<^verbatim>\<open>undefined\<close> or empty before it looks at any signature.\<close>

definition jwt_verify :: "env \<Rightarrow> string option \<Rightarrow> thrown + payload" where
  "jwt_verify e token =
     (case token of
        None \<Rightarrow> Inl JsonWebTokenError
      | Some t \<Rightarrow> if t = [] then Inl JsonWebTokenError else jwt_check e t)"

text \<open>The middleware \<^verbatim>\<open>auth\<close>; \<open>nxt\<close> is the handler \<^verbatim>\<open>next()\<close> runs.\<close>

definition auth :: "env \<Rightarrow> request \<Rightarrow> (request \<Rightarrow> reply) \<Rightarrow> reply" where
  "auth e req nxt =
     (case authorization req of
        None \<Rightarrow> Error 401 ''No token''
      | Some header \<Rightarrow>
          if header = [] then Error 401 ''No token''
          else
            (case jwt_verify e (index (js_split (CHR '' '') header) 1) of
               Inl err \<Rightarrow> Error 401 ''Invalid token''
             | Inr data \<Rightarrow> nxt (req\<lparr>req_user := Some data\<rparr>)))"

text \<open>The handler of \<^verbatim>\<open>GET /api/user/me\<close>; \<^verbatim>\<open>select('-passwordHash')\<close> leaves
  the hash out of the document it returns.\<close>

definition me :: "env \<Rightarrow> user list \<Rightarrow> request \<Rightarrow> reply" where
  "me e s req =
     (case req_user req of
        None \<Rightarrow> server_error
      | Some data \<Rightarrow>
          (case User_findOne e FindById (\<lambda>x. uid x = payload_id data) s of
             Inl err \<Rightarrow> server_error
           | Inr None \<Rightarrow> Error 404 ''User not found''
           | Inr (Some u) \<Rightarrow> Profile (u\<lparr>passwordHash := None\<rparr>)))"

definition payment :: "request \<Rightarrow> reply" where
  "payment req =
     Message ''Payment processing simulated. Integrate Stripe for live payments.''"

text \<open>The four routes, and one request served on a collection.\<close>

datatype route =
    PostRegister body
  | PostLogin body
  | GetMe request
  | PostPayment request

fun serve :: "env \<Rightarrow> user list \<Rightarrow> route \<Rightarrow> reply \<times> user list" where
  "serve e s (PostRegister b) = register e s b"
| "serve e s (PostLogin b) = (login e s b, s)"
| "serve e s (GetMe req) = (auth e req (me e s), s)"
| "serve e s (PostPayment req) = (auth e req payment, s)"

subsection \<open>A sample environment and collection\<close>

text \<open>Two accounts, and an environment in which no library call fails: the hash of
  \<open>p\<close> is \<open>h:p\<close> and the token of an account is \<open>t:\<close> followed by its
  email.\<close>

definition alice :: user where
  "alice = \<lparr> uid = 1, email = ''a@x.com'', passwordHash = Some ''h:pw1'',
     fullName = None, phone = None, country = None, city = None, zipCode = None,
     referralCode = Some ''GGAAAAAA'', referredBy = None,
     balance = NumNull, points = js_int 0, createdAt = 0 \<rparr>"


definition env0 :: env where
  "env0 = \<lparr> db_fails = (\<lambda>c. False),
     bcrypt_hash = (\<lambda>p r. Inr (''h:'' @ p)),
     bcrypt_compare = (\<lambda>p h. Inr (h = Some (''h:'' @ p))),
     jwt_sign = (\<lambda>p. Inr (''t:'' @ payload_email p)),
     jwt_check = (\<lambda>t. if t = ''t:a@x.com''
                        then Inr \<lparr>payload_id = 1, payload_email = ''a@x.com''\<rparr>
                        else Inl JsonWebTokenError),
     random36 = ''0.4fzyo82mvyr'', new_id = 2, date_now = 0 \<rparr>"

definition bearer :: "string \<Rightarrow> request" where
  "bearer h = \<lparr> authorization = Some h, req_user = None \<rparr>"

definition signup :: "string \<Rightarrow> string option \<Rightarrow> string option \<Rightarrow> body" where
  "signup em pw code = \<lparr> body_email = Some em, body_password = pw,
     body_fullName = None, body_phone = None, body_country = None, body_city = None,
     body_zipCode = None, body_referralCode = code \<rparr>"

subsection \<open>The words of the claims\<close>

text \<open>The format claimed for a referral code: the prefix \<open>GG\<close> followed by exactly
  six characters, each an uppercase letter or a digit. \<open>base36_digit\<close> is a digit of
  \<^verbatim>\<open>toString(36)\<close>.\<close>

definition upper_alnum :: "char \<Rightarrow> bool" where
  "upper_alnum c = ((48::nat) \<le> of_char c \<and> of_char c \<le> (57::nat)
     \<or> (65::nat) \<le> of_char c \<and> of_char c \<le> (90::nat))"

definition referral_format :: "string \<Rightarrow> bool" where
  "referral_format code = (take 2 code = ''GG'' \<and> length (drop 2 code) = 6
     \<and> list_all upper_alnum (drop 2 code))"

definition base36_digit :: "char \<Rightarrow> bool" where
  "base36_digit c = ((48::nat) \<le> of_char c \<and> of_char c \<le> (57::nat)
     \<or> (97::nat) \<le> of_char c \<and> of_char c \<le> (122::nat))"

text \<open>Segments separated by whitespace. Every whitespace character separates, as
  every space does for \<^verbatim>\<open>split(' ')\<close>, so that the two readings differ only on
  whitespace that is not the space character.\<close>

definition whitespace :: "char \<Rightarrow> bool" where
  "whitespace c = (c = CHR '' '' \<or> c = CHR 0x09 \<or> c = CHR 0x0A \<or> c = CHR 0x0B
     \<or> c = CHR 0x0C \<or> c = CHR 0x0D)"

fun whitespace_split :: "string \<Rightarrow> string list" where
  "whitespace_split [] = [[]]"
| "whitespace_split (c # cs) =
     (if whitespace c then [] # whitespace_split cs
      else (case whitespace_split cs of
              [] \<Rightarrow> [[c]]
            | w # ws \<Rightarrow> (c # w) # ws))"

text \<open>A header whose scheme word and token are separated by a tab.\<close>

definition tab_header :: string where
  "tab_header = ''Bearer'' @ CHR 0x09 # ''t:a@x.com''"

section \<open>Properties\<close>

subsection \<open>Arithmetic on doubles\<close>

declare bit_length.simps [simp del]

lemma bit_length_le: "n < 2 ^ b \<Longrightarrow> bit_length n \<le> b"
proof (induction n arbitrary: b rule: bit_length.induct)
  case (1 n)
  show ?case
  proof (cases "n = 0")
    case True
    then show ?thesis by (simp add: bit_length.simps)
  next
    case False
    with "1.prems" obtain c where b: "b = Suc c" by (cases b) auto
    with "1.prems" have "n div 2 < 2 ^ c" by auto
    with "1.IH" [OF False] have "bit_length (n div 2) \<le> c" by simp
    with False b show ?thesis by (simp add: bit_length.simps [of n])
  qed
qed



lemma round_even_dvd: "2 ^ s dvd k \<Longrightarrow> round_even k s * 2 ^ s = k"
  by (auto simp: round_even_def Let_def mod_eq_0_iff_dvd)

lemma to_double_exact:
  assumes "\<bar>m\<bar> \<le> 2 ^ 53"
  shows "to_double (m * 2 ^ 1074) = Finite (m * 2 ^ 1074)"
proof -
  let ?k = "m * 2 ^ 1074"
  let ?s = "bit_length (nat \<bar>?k\<bar>) - 53"
  have abs: "\<bar>?k\<bar> = \<bar>m\<bar> * 2 ^ 1074" by (simp add: abs_mult)
  have dvd: "2 ^ ?s dvd ?k"
  proof (cases "\<bar>m\<bar> < 2 ^ 53")
    case True
    then have "\<bar>m\<bar> * 2 ^ 1074 < 2 ^ 53 * (2 ^ 1074 :: int)" by (simp only: mult_strict_right_mono zero_less_numeral zero_less_power)
    then have "\<bar>?k\<bar> < 2 ^ 1127" by (simp only: abs power_add [symmetric]) simp
    then have "nat \<bar>?k\<bar> < 2 ^ 1127" by (simp only: nat_less_iff) simp
    then have "bit_length (nat \<bar>?k\<bar>) \<le> 1127" by (rule bit_length_le)
    then have "?s \<le> 1074" by simp
    then have "(2::int) ^ ?s dvd 2 ^ 1074" by (rule le_imp_power_dvd)
    then show ?thesis by (rule dvd_mult)
  next
    case False
    with assms have m: "\<bar>m\<bar> = 2 ^ 53" by simp
    then have ka: "\<bar>?k\<bar> = 2 ^ 1127" by (simp only: abs power_add [symmetric]) simp
    then have k: "nat \<bar>?k\<bar> = 2 ^ 1127" by (simp only: ) simp
    have "(2::nat) ^ 1127 < 2 ^ 1128" by simp
    with k have "bit_length (nat \<bar>?k\<bar>) \<le> 1128" by (simp only: bit_length_le)
    then have "?s \<le> 1075" by simp
    then have "(2::int) ^ ?s dvd 2 ^ 1075" by (rule le_imp_power_dvd)
    moreover have "(2::int) ^ 1075 dvd ?k"
    proof -
      have "(2::int) ^ 1075 dvd 2 ^ 1127" by (rule le_imp_power_dvd) simp
      then have "(2::int) ^ 1075 dvd \<bar>?k\<bar>" by (simp only: ka)
      then show ?thesis by (simp only: dvd_abs_iff)
    qed
    ultimately show ?thesis by (rule dvd_trans)
  qed
  have "\<bar>m\<bar> * 2 ^ 1074 \<le> 2 ^ 53 * (2 ^ 1074 :: int)"
    using assms by (simp only: mult_right_mono zero_le_numeral zero_le_power)
  then have "\<bar>?k\<bar> \<le> 2 ^ 1127" by (simp only: abs power_add [symmetric]) simp
  moreover have "(2 :: int) ^ 1127 < 2 ^ 2098" by simp
  ultimately have small: "\<bar>?k\<bar> < 2 ^ 2098" by (rule le_less_trans)
  from small have "\<not> 2 ^ 2098 \<le> ?k" and "\<not> ?k \<le> - (2 ^ 2098)"
    by linarith+
  with round_even_dvd [OF dvd] show ?thesis
    by (simp only: to_double_def Let_def if_False)
qed





lemma credit_absent:
  shows "js_plus (or_zero NumUndefined) 1000 = js_int 1000"
    and "js_plus (or_zero NumNull) 1000 = js_int 1000"
    and "js_plus (or_zero NaN) 1000 = js_int 1000"
  using to_double_exact [of 1000] by (simp_all add: js_int_def)



lemma credit_infinite:
  shows "js_plus (or_zero PosInfinity) n = PosInfinity"
    and "js_plus (or_zero NegInfinity) n = NegInfinity"
  by simp_all

subsection \<open>Splitting and the balance update\<close>

lemma js_split_not_Nil: "js_split sep s \<noteq> []"
  by (induction s) (auto split: list.splits)

lemma js_split_no_sep: "sep \<notin> set s \<Longrightarrow> js_split sep s = [s]"
  by (induction s) auto

lemma js_split_append: "sep \<notin> set w \<Longrightarrow> js_split sep (w @ sep # rest) = w # js_split sep rest"
  by (induction w) auto

lemma hd_js_split: "hd (js_split sep s) = takeWhile (\<lambda>c. c \<noteq> sep) s"
  by (induction s) (auto split: list.splits simp: js_split_not_Nil)

lemma set_balance_distinct:
  "distinct (map uid s) \<Longrightarrow> sp \<in> set s \<Longrightarrow>
   set_balance (uid sp) v s = map (\<lambda>x. if x = sp then sp\<lparr>balance := v\<rparr> else x) s"
proof (induction s)
  case Nil
  then show ?case by simp
next
  case (Cons x xs)
  show ?case
  proof (cases "uid x = uid sp")
    case True
    with Cons.prems have eq: "x = sp" by (auto simp: image_iff)
    with Cons.prems have "sp \<notin> set xs" by (auto simp: image_iff)
    then have "map (\<lambda>x. if x = sp then sp\<lparr>balance := v\<rparr> else x) xs = xs"
      by (induction xs) auto
    with True eq show ?thesis by simp
  next
    case False
    with Cons show ?thesis by auto
  qed
qed

lemma find_Some_mem: "find p s = Some x \<Longrightarrow> x \<in> set s \<and> p x"
  by (induction s) (auto split: if_splits)

lemma map_uid_set_balance: "map uid (set_balance i b s) = map uid s"
  by (induction s) auto



lemma find_None_iff_set: "find p s = None \<longleftrightarrow> (\<forall>x \<in> set s. \<not> p x)"
  by (induction s) auto

lemma credit_sponsor_found:
  assumes "distinct (map uid s)" and "truthy code"
    and "\<not> db_fails e FindSponsor" and "\<not> db_fails e SaveSponsor"
    and "find (\<lambda>x. referralCode x = code) s = Some sponsor"
  shows "credit_sponsor e code s =
     Inr (map (\<lambda>x. if x = sponsor
                   then sponsor\<lparr>balance := js_plus (or_zero (balance sponsor)) 1000\<rparr>
                   else x) s)"
proof -
  from assms(5) have mem: "sponsor \<in> set s" by (simp add: find_Some_mem)
  from assms have "credit_sponsor e code s
      = Inr (set_balance (uid sponsor) (js_plus (or_zero (balance sponsor)) 1000) s)"
    by (simp add: credit_sponsor_def User_findOne_def save_sponsor_def)
  with set_balance_distinct [OF assms(1) mem] show ?thesis by simp
qed


lemma register_valid_after_credit:
  assumes "\<not> db_fails e FindByEmail" and "find (\<lambda>x. email x = em) s = None"
    and "bcrypt_hash e pw 10 = Inr hash"
    and "credit_sponsor e (body_referralCode b) s = Inr s1"
  shows "register_valid e s b em pw =
     (case save_new e (new_User e b em hash (genReferral e)) s1 of
        Inl err \<Rightarrow> (server_error, s1)
      | Inr s2 \<Rightarrow>
          (case jwt_sign e \<lparr>payload_id = new_id e, payload_email = em\<rparr> of
             Inl err \<Rightarrow> (server_error, s2)
           | Inr token \<Rightarrow> (Registered ''Registered successfully'' token (genReferral e), s2)))"
  using assms by (simp add: register_valid_def User_findOne_def)

lemma register_valid_eq:
  assumes "body_email b = Some em" and "body_password b = Some pw" and "em \<noteq> []" and "pw \<noteq> []"
  shows "register e s b = register_valid e s b em pw"
  using assms by (simp add: register_def)

lemma save_new_cases:
  "save_new e u s1 = Inl MongoError \<or> save_new e u s1 = Inr (s1 @ [u])"
  by (simp add: save_new_def split: option.splits)

lemma snd_after_credit:
  "snd (case save_new e u s1 of
        Inl err \<Rightarrow> (server_error, s1)
      | Inr s2 \<Rightarrow>
          (case jwt_sign e p of
             Inl err \<Rightarrow> (server_error, s2)
           | Inr token \<Rightarrow> (Registered m token g, s2))) = s1
   \<or> snd (case save_new e u s1 of
        Inl err \<Rightarrow> (server_error, s1)
      | Inr s2 \<Rightarrow>
          (case jwt_sign e p of
             Inl err \<Rightarrow> (server_error, s2)
           | Inr token \<Rightarrow> (Registered m token g, s2))) = s1 @ [u]"
  using save_new_cases [where e = e and u = u and ?s1.0 = s1] by (auto split: sum.splits)

subsection \<open>The session guard\<close>

text \<open>
  Claim C6. The session guard answers 401 "No token" to a request without an
  authorization header, 401 "Invalid token" when \<^verbatim>\<open>jwt.verify\<close> rejects the
  header's token (a signature that is invalid or expired), and otherwise stores the
  decoded payload in \<^verbatim>\<open>req.user\<close> and runs the next handler on that request.
\<close>

theorem auth_guard:
  "(authorization req = None \<longrightarrow> auth e req nxt = Error 401 ''No token'')
   \<and> (authorization req = Some h \<and> h \<noteq> []
        \<and> jwt_verify e (index (js_split (CHR '' '') h) 1) = Inl err
      \<longrightarrow> auth e req nxt = Error 401 ''Invalid token'')
   \<and> (authorization req = Some h \<and> h \<noteq> []
        \<and> jwt_verify e (index (js_split (CHR '' '') h) 1) = Inr data
      \<longrightarrow> auth e req nxt = nxt (req\<lparr>req_user := Some data\<rparr>))"
  by (simp add: auth_def)

theorem auth_guard_witness:
  "auth env0 \<lparr>authorization = None, req_user = None\<rparr> payment = Error 401 ''No token''
   \<and> auth env0 (bearer ''Bearer forged'') payment = Error 401 ''Invalid token''
   \<and> auth env0 (bearer ''Bearer t:a@x.com'') (me env0 [alice])
       = me env0 [alice] ((bearer ''Bearer t:a@x.com'')
           \<lparr>req_user := Some \<lparr>payload_id = 1, payload_email = ''a@x.com''\<rparr>\<rparr>)"
proof -
  have a: "authorization \<lparr>authorization = None, req_user = None\<rparr> = None"
    by simp
  have b: "authorization (bearer ''Bearer forged'') = Some ''Bearer forged''
      \<and> ''Bearer forged'' \<noteq> []
      \<and> jwt_verify env0 (index (js_split (CHR '' '') ''Bearer forged'') 1) = Inl JsonWebTokenError"
    by (simp add: bearer_def jwt_verify_def index_def env0_def)
  have c: "authorization (bearer ''Bearer t:a@x.com'') = Some ''Bearer t:a@x.com''
      \<and> ''Bearer t:a@x.com'' \<noteq> []
      \<and> jwt_verify env0 (index (js_split (CHR '' '') ''Bearer t:a@x.com'') 1)
          = Inr \<lparr>payload_id = 1, payload_email = ''a@x.com''\<rparr>"
    by (simp add: bearer_def jwt_verify_def index_def env0_def)
  from a b c
    auth_guard [where req = "\<lparr>authorization = None, req_user = None\<rparr>" and e = env0
      and nxt = payment]
    auth_guard [where req = "bearer ''Bearer forged''" and h = "''Bearer forged''"
      and e = env0 and err = JsonWebTokenError and nxt = payment]
    auth_guard [where req = "bearer ''Bearer t:a@x.com''" and h = "''Bearer t:a@x.com''"
      and e = env0 and data = "\<lparr>payload_id = 1, payload_email = ''a@x.com''\<rparr>"
      and nxt = "me env0 [alice]"]
  show ?thesis by simp
qed

subsection \<open>The profile\<close>

text \<open>
  Claim C7. For a request that passed the session guard with the payload \<open>data\<close>,
  the profile route looks the account up by the payload's id: a failing lookup gives
  500 "Server error", no account with that id gives 404 "User not found", and
  otherwise the reply is the account with its password hash left out. The collection
  is not changed.
\<close>

theorem profile_fetch:
  assumes "authorization req = Some h" and "h \<noteq> []"
    and "jwt_verify e (index (js_split (CHR '' '') h) 1) = Inr data"
  shows "serve e s (GetMe req) =
     ((if db_fails e FindById then Error 500 ''Server error''
       else (case find (\<lambda>x. uid x = payload_id data) s of
               None \<Rightarrow> Error 404 ''User not found''
             | Some u \<Rightarrow> Profile (u\<lparr>passwordHash := None\<rparr>))), s)"
  using assms by (simp add: auth_def me_def User_findOne_def server_error_def split: option.splits)

theorem profile_fetch_witness:
  "serve env0 [alice] (GetMe (bearer ''Bearer t:a@x.com'')) =
     (Profile (alice\<lparr>passwordHash := None\<rparr>), [alice])
   \<and> serve env0 [] (GetMe (bearer ''Bearer t:a@x.com'')) = (Error 404 ''User not found'', [])
   \<and> serve (env0\<lparr>db_fails := (\<lambda>c. True)\<rparr>) [alice] (GetMe (bearer ''Bearer t:a@x.com''))
       = (Error 500 ''Server error'', [alice])"
proof -
  have h: "authorization (bearer ''Bearer t:a@x.com'') = Some ''Bearer t:a@x.com''"
    and n: "''Bearer t:a@x.com'' \<noteq> []"
    by (simp_all add: bearer_def)
  have v: "jwt_verify env0 (index (js_split (CHR '' '') ''Bearer t:a@x.com'') 1)
          = Inr \<lparr>payload_id = 1, payload_email = ''a@x.com''\<rparr>"
    by (simp add: jwt_verify_def index_def env0_def)
  have v': "jwt_verify (env0\<lparr>db_fails := (\<lambda>c. True)\<rparr>)
             (index (js_split (CHR '' '') ''Bearer t:a@x.com'') 1)
          = Inr \<lparr>payload_id = 1, payload_email = ''a@x.com''\<rparr>"
    by (simp add: jwt_verify_def index_def env0_def)
  have f: "\<not> db_fails env0 FindById" by (simp add: env0_def)
  show ?thesis
    using profile_fetch [OF h n v, of "[alice]"] profile_fetch [OF h n v, of "[]"]
      profile_fetch [OF h n v', of "[alice]"] f
    by (simp add: alice_def)
qed

subsection \<open>Login\<close>



subsection \<open>The sponsor's commission\<close>











text \<open>
  Claim C2. The sponsor's save comes before the new account's, and nothing ties the
  two together. Take a registration that passes validation and the uniqueness check,
  whose referral code matches \<open>sponsor\<close> and whose sponsor save succeeds, so that
  the collection is \<open>s1\<close>: the old one with the credit written to the sponsor. If
  the insert of the new account into \<open>s1\<close> then fails, the reply is 500 "Server
  error" and the collection left behind is \<open>s1\<close>: the credit stays, and no new
  account exists.
\<close>

theorem register_no_rollback:
  assumes "body_email b = Some em" and "body_password b = Some pw"
    and "em \<noteq> []" and "pw \<noteq> []"
    and "\<not> db_fails e FindByEmail" and "find (\<lambda>x. email x = em) s = None"
    and "bcrypt_hash e pw 10 = Inr hash"
    and "distinct (map uid s)"
    and "truthy (body_referralCode b)"
    and "\<not> db_fails e FindSponsor" and "\<not> db_fails e SaveSponsor"
    and "find (\<lambda>x. referralCode x = body_referralCode b) s = Some sponsor"
    and "s1 = map (\<lambda>x. if x = sponsor
                         then sponsor\<lparr>balance := js_plus (or_zero (balance sponsor)) 1000\<rparr>
                         else x) s"
    and "save_new e (new_User e b em hash (genReferral e)) s1 = Inl err"
  shows "credit_sponsor e (body_referralCode b) s = Inr s1
       \<and> register e s b = (Error 500 ''Server error'', s1)"
proof -
  from assms(8,9,10,11,12,13) have c: "credit_sponsor e (body_referralCode b) s = Inr s1"
    by (simp add: credit_sponsor_found)
  from register_valid_eq [OF assms(1-4), where e = e and s = s]
    register_valid_after_credit [OF assms(5-7) c] assms(14)
  have "register e s b = (Error 500 ''Server error'', s1)"
    by (simp add: server_error_def)
  with c show ?thesis by simp
qed

theorem register_no_rollback_witness:
  "credit_sponsor (env0\<lparr>db_fails := (\<lambda>c. c = SaveUser)\<rparr>) (Some ''GGAAAAAA'') [alice]
     = Inr [alice\<lparr>balance := js_int 1000\<rparr>]
   \<and> register (env0\<lparr>db_fails := (\<lambda>c. c = SaveUser)\<rparr>) [alice]
        (signup ''b@x.com'' (Some ''pw2'') (Some ''GGAAAAAA''))
     = (Error 500 ''Server error'', [alice\<lparr>balance := js_int 1000\<rparr>])"
proof -
  let ?e = "env0\<lparr>db_fails := (\<lambda>c. c = SaveUser)\<rparr>"
  let ?b = "signup ''b@x.com'' (Some ''pw2'') (Some ''GGAAAAAA'')"
  have b: "body_email ?b = Some ''b@x.com''" "body_password ?b = Some ''pw2''"
      "''b@x.com'' \<noteq> []" "''pw2'' \<noteq> []"
      "\<not> db_fails ?e FindByEmail"
      "find (\<lambda>x. email x = ''b@x.com'') [alice] = None"
      "bcrypt_hash ?e ''pw2'' 10 = Inr ''h:pw2''"
      "distinct (map uid [alice])"
      "truthy (body_referralCode ?b)"
      "\<not> db_fails ?e FindSponsor" "\<not> db_fails ?e SaveSponsor"
      "find (\<lambda>x. referralCode x = body_referralCode ?b) [alice] = Some alice"
    by (simp_all add: signup_def alice_def env0_def truthy_def)
  have ba: "balance alice = NumNull" by (simp add: alice_def)
  have cr: "js_plus (or_zero (balance alice)) 1000 = js_int 1000"
    by (simp only: ba credit_absent)
  have s1: "[alice\<lparr>balance := js_int 1000\<rparr>]
      = map (\<lambda>x. if x = alice
                   then alice\<lparr>balance := js_plus (or_zero (balance alice)) 1000\<rparr>
                   else x) [alice]"
    by (simp add: cr)
  have f: "save_new ?e (new_User ?e ?b ''b@x.com'' ''h:pw2'' (genReferral ?e))
             [alice\<lparr>balance := js_int 1000\<rparr>] = Inl MongoError"
    by (simp add: save_new_def)
  from register_no_rollback [OF b s1 f] show ?thesis by (simp add: signup_def)
qed

subsection \<open>A duplicate email\<close>

text \<open>
  Claim C5, as amended. A registration whose email belongs to an existing account
  leaves the collection exactly as it was, whatever else the body holds. When the
  email and the password are both non-empty and the lookup does not fail, the reply
  is 400 "Email already registered". (The validation of line 50 comes first: without
  a password the reply is 400 "Email and password required", as the counterexample
  shows.)
\<close>

theorem register_duplicate_email:
  assumes "body_email b = Some em" and "find (\<lambda>x. email x = em) s = Some x"
  shows "snd (register e s b) = s
       \<and> (em \<noteq> [] \<and> truthy (body_password b) \<and> \<not> db_fails e FindByEmail
          \<longrightarrow> register e s b = (Error 400 ''Email already registered'', s))"
  using assms
  by (auto simp: register_def register_valid_def User_findOne_def truthy_def
      split: option.splits)

theorem register_duplicate_email_witness:
  "snd (register env0 [alice] (signup ''a@x.com'' (Some ''pw9'') (Some ''GGAAAAAA''))) = [alice]
   \<and> register env0 [alice] (signup ''a@x.com'' (Some ''pw9'') (Some ''GGAAAAAA''))
      = (Error 400 ''Email already registered'', [alice])"
proof -
  let ?b = "signup ''a@x.com'' (Some ''pw9'') (Some ''GGAAAAAA'')"
  have a: "body_email ?b = Some ''a@x.com''"
    and f: "find (\<lambda>x. email x = ''a@x.com'') [alice] = Some alice"
    and r: "''a@x.com'' \<noteq> [] \<and> truthy (body_password ?b) \<and> \<not> db_fails env0 FindByEmail"
    by (simp_all add: signup_def alice_def env0_def truthy_def)
  from register_duplicate_email [OF a f, where e = env0] r show ?thesis by simp
qed

text \<open>The claim as stated fails: the email belongs to an account, the body has no
  password, and the reply is the validation error.\<close>

theorem register_duplicate_email_counterexample:
  "find (\<lambda>x. email x = ''a@x.com'') [alice] = Some alice
   \<and> body_email (signup ''a@x.com'' None None) = Some ''a@x.com''
   \<and> register env0 [alice] (signup ''a@x.com'' None None)
      = (Error 400 ''Email and password required'', [alice])
   \<and> fst (register env0 [alice] (signup ''a@x.com'' None None))
      \<noteq> Error 400 ''Email already registered''"
  by (simp add: register_def signup_def alice_def)

subsection \<open>What a request can change\<close>

lemma credit_sponsor_cases:
  assumes "distinct (map uid s)" and "credit_sponsor e code s = Inr s1"
  shows "s1 = s \<or> (truthy code \<and> (\<exists>sp. find (\<lambda>x. referralCode x = code) s = Some sp
      \<and> s1 = map (\<lambda>x. if x = sp
                          then sp\<lparr>balance := js_plus (or_zero (balance sp)) 1000\<rparr>
                          else x) s))"
proof (cases "truthy code \<and> \<not> db_fails e FindSponsor
    \<and> find (\<lambda>x. referralCode x = code) s \<noteq> None")
  case True
  then obtain sp where sp: "find (\<lambda>x. referralCode x = code) s = Some sp" by auto
  with True assms(2) have ok: "\<not> db_fails e SaveSponsor"
    by (auto simp: credit_sponsor_def User_findOne_def save_sponsor_def split: if_splits)
  from credit_sponsor_found [OF assms(1) _ _ ok sp] True assms(2) sp show ?thesis
    by simp
next
  case False
  with assms(2) show ?thesis
    by (auto simp: credit_sponsor_def User_findOne_def split: if_splits)
qed

lemma register_cases:
  assumes "register e s b = (rep, s')"
  shows "s' = s \<or> (\<exists>em s1. body_email b = Some em \<and> find (\<lambda>x. email x = em) s = None
      \<and> credit_sponsor e (body_referralCode b) s = Inr s1
      \<and> (s' = s1 \<or> (\<exists>hash. s' = s1 @ [new_User e b em hash (genReferral e)])))"
proof (cases "s' = s")
  case True
  then show ?thesis by simp
next
  case False
  with assms obtain em pw where b: "body_email b = Some em" "body_password b = Some pw"
      "em \<noteq> []" "pw \<noteq> []"
    by (auto simp: register_def split: option.splits if_splits)
  with assms have v: "register_valid e s b em pw = (rep, s')"
    by (simp add: register_valid_eq)
  with False have f: "\<not> db_fails e FindByEmail" "find (\<lambda>x. email x = em) s = None"
    by (auto simp: register_valid_def User_findOne_def split: if_splits option.splits)
  with v False obtain hash where h: "bcrypt_hash e pw 10 = Inr hash"
    by (auto simp: register_valid_def User_findOne_def split: sum.splits)
  with v f False obtain s1 where c: "credit_sponsor e (body_referralCode b) s = Inr s1"
    by (auto simp: register_valid_def User_findOne_def split: sum.splits)
  define K where "K = (case save_new e (new_User e b em hash (genReferral e)) s1 of
        Inl err \<Rightarrow> (server_error, s1)
      | Inr s2 \<Rightarrow>
          (case jwt_sign e \<lparr>payload_id = new_id e, payload_email = em\<rparr> of
             Inl err \<Rightarrow> (server_error, s2)
           | Inr token \<Rightarrow> (Registered ''Registered successfully'' token (genReferral e), s2)))"
  from register_valid_after_credit [OF f h c] v have "K = (rep, s')"
    by (simp add: K_def)
  then have k: "snd K = s'" by simp
  from snd_after_credit [where e = e and u = "new_User e b em hash (genReferral e)"
      and ?s1.0 = s1 and p = "\<lparr>payload_id = new_id e, payload_email = em\<rparr>"
      and m = "''Registered successfully''" and g = "genReferral e"]
  have "snd K = s1 \<or> snd K = s1 @ [new_User e b em hash (genReferral e)]"
    by (simp only: K_def)
  with k have "s' = s1 \<or> s' = s1 @ [new_User e b em hash (genReferral e)]"
    by simp
  with b(1) f(2) c show ?thesis by blast
qed

text \<open>
  Claim C8. Serve any request of the four routes on a collection with distinct ids.
  Every document \<open>s ! i\<close> of the old collection is still at its place afterwards,
  with the same id and the same \<open>referredBy\<close>. It is either unchanged, or the
  request is a registration carrying this document's referral code for another email
  than this document's, and the document differs only in its balance, which the
  credit of line 73 has written.
  Login, profile and payment change nothing. The collection grows by at most the one
  document the registration creates, whose \<open>referredBy\<close> is set by \<open>new_User\<close>.
\<close>

theorem fields_written_once:
  assumes "distinct (map uid s)" and "serve e s r = (rep, s')" and "i < length s"
  shows "i < length s' \<and> uid (s' ! i) = uid (s ! i) \<and> referredBy (s' ! i) = referredBy (s ! i)
     \<and> (s' ! i = s ! i
        \<or> (\<exists>b. r = PostRegister b \<and> truthy (body_referralCode b)
              \<and> referralCode (s ! i) = body_referralCode b
              \<and> body_email b \<noteq> Some (email (s ! i))
              \<and> s' ! i = (s ! i)\<lparr>balance := js_plus (or_zero (balance (s ! i))) 1000\<rparr>))
     \<and> (length s' = length s
        \<or> (\<exists>b em hash. r = PostRegister b
              \<and> s' = take (length s) s' @ [new_User e b em hash (genReferral e)]))"
proof (cases r)
  case (PostRegister b)
  with assms(2) have reg: "register e s b = (rep, s')" by simp
  from register_cases [OF reg] show ?thesis
  proof
    assume "s' = s"
    with assms(3) show ?thesis by simp
  next
    assume "\<exists>em s1. body_email b = Some em \<and> find (\<lambda>x. email x = em) s = None
      \<and> credit_sponsor e (body_referralCode b) s = Inr s1
      \<and> (s' = s1 \<or> (\<exists>hash. s' = s1 @ [new_User e b em hash (genReferral e)]))"
    then obtain em s1 where em: "body_email b = Some em"
      and fresh: "find (\<lambda>x. email x = em) s = None"
      and c: "credit_sponsor e (body_referralCode b) s = Inr s1"
      and s': "s' = s1 \<or> (\<exists>hash. s' = s1 @ [new_User e b em hash (genReferral e)])"
      by blast
    from credit_sponsor_cases [OF assms(1) c]
    have one: "length s1 = length s \<and> uid (s1 ! i) = uid (s ! i)
        \<and> referredBy (s1 ! i) = referredBy (s ! i)
        \<and> (s1 ! i = s ! i
          \<or> (truthy (body_referralCode b)
              \<and> referralCode (s ! i) = body_referralCode b
              \<and> body_email b \<noteq> Some (email (s ! i))
              \<and> s1 ! i = (s ! i)\<lparr>balance := js_plus (or_zero (balance (s ! i))) 1000\<rparr>))"
    proof
      assume "s1 = s"
      then show ?thesis by simp
    next
      assume "truthy (body_referralCode b)
        \<and> (\<exists>sp. find (\<lambda>x. referralCode x = body_referralCode b) s = Some sp
          \<and> s1 = map (\<lambda>x. if x = sp
                          then sp\<lparr>balance := js_plus (or_zero (balance sp)) 1000\<rparr>
                          else x) s)"
      then obtain sp where t: "truthy (body_referralCode b)"
        and sp: "find (\<lambda>x. referralCode x = body_referralCode b) s = Some sp"
        and s1: "s1 = map (\<lambda>x. if x = sp
                          then sp\<lparr>balance := js_plus (or_zero (balance sp)) 1000\<rparr>
                          else x) s"
        by blast
      from find_Some_mem [OF sp] have code: "referralCode sp = body_referralCode b"
        by simp
      from fresh assms(3) have "email (s ! i) \<noteq> em"
        by (simp add: find_None_iff_set)
      with em have other: "body_email b \<noteq> Some (email (s ! i))" by simp
      show ?thesis
      proof (cases "s ! i = sp")
        case True
        with s1 assms(3) t code other show ?thesis by simp
      next
        case False
        with s1 assms(3) show ?thesis by simp
      qed
    qed
    from s' show ?thesis
    proof
      assume "s' = s1"
      with one PostRegister assms(3) show ?thesis by auto
    next
      assume "\<exists>hash. s' = s1 @ [new_User e b em hash (genReferral e)]"
      then obtain hash where "s' = s1 @ [new_User e b em hash (genReferral e)]" by blast
      with one PostRegister assms(3) show ?thesis by (auto simp: nth_append)
    qed
  qed
next
  case (PostLogin b)
  with assms show ?thesis by simp
next
  case (GetMe req)
  with assms show ?thesis by simp
next
  case (PostPayment req)
  with assms show ?thesis by simp
qed

theorem fields_written_once_witness:
  "0 < length (snd (serve env0 [alice]
         (PostRegister (signup ''b@x.com'' (Some ''pw2'') (Some ''GGAAAAAA'')))))
   \<and> uid (snd (serve env0 [alice]
         (PostRegister (signup ''b@x.com'' (Some ''pw2'') (Some ''GGAAAAAA'')))) ! 0)
       = uid ([alice] ! 0)
   \<and> referredBy (snd (serve env0 [alice]
         (PostRegister (signup ''b@x.com'' (Some ''pw2'') (Some ''GGAAAAAA'')))) ! 0)
       = referredBy ([alice] ! 0)"
proof -
  let ?r = "PostRegister (signup ''b@x.com'' (Some ''pw2'') (Some ''GGAAAAAA''))"
  have d: "distinct (map uid [alice])" by simp
  have p: "serve env0 [alice] ?r = (fst (serve env0 [alice] ?r), snd (serve env0 [alice] ?r))"
    by (rule prod.collapse [symmetric])
  have l: "0 < length [alice]" by simp
  note w = fields_written_once [OF d p l]
  show ?thesis
    by (rule conjI [OF w [THEN conjunct1]
          conjI [OF w [THEN conjunct2, THEN conjunct1]
            w [THEN conjunct2, THEN conjunct2, THEN conjunct1]]])
qed

text \<open>The hypothesis on the ids is an invariant: serving a request keeps them
  distinct.\<close>

lemma save_new_Inr:
  "save_new e u s1 = Inr s2 \<Longrightarrow> s2 = s1 @ [u] \<and> uid u \<notin> uid ` set s1"
  by (auto simp: save_new_def find_None_iff_set split: if_splits option.splits)

lemma credit_sponsor_uids:
  "credit_sponsor e code s = Inr s1 \<Longrightarrow> map uid s1 = map uid s"
  by (auto simp: credit_sponsor_def User_findOne_def save_sponsor_def map_uid_set_balance
      split: if_splits option.splits)

lemma register_distinct:
  assumes "distinct (map uid s)" and "register e s b = (rep, s')"
  shows "distinct (map uid s')"
proof (cases "s' = s")
  case True
  with assms show ?thesis by simp
next
  case False
  with assms(2) obtain em pw where b: "body_email b = Some em" "body_password b = Some pw"
      "em \<noteq> []" "pw \<noteq> []"
    by (auto simp: register_def split: option.splits if_splits)
  with assms(2) have v: "register_valid e s b em pw = (rep, s')"
    by (simp add: register_valid_eq)
  with False obtain hash s1 where h: "bcrypt_hash e pw 10 = Inr hash"
    and c: "credit_sponsor e (body_referralCode b) s = Inr s1"
    and k: "s' = s1 \<or> save_new e (new_User e b em hash (genReferral e)) s1 = Inr s'"
    by (auto simp: register_valid_def User_findOne_def split: if_splits option.splits sum.splits)
  from credit_sponsor_uids [OF c] assms(1) have d1: "distinct (map uid s1)" by simp
  from k show ?thesis
  proof
    assume "s' = s1"
    with d1 show ?thesis by simp
  next
    assume "save_new e (new_User e b em hash (genReferral e)) s1 = Inr s'"
    from save_new_Inr [OF this] d1 show ?thesis by auto
  qed
qed

lemma serve_distinct:
  "distinct (map uid s) \<Longrightarrow> serve e s r = (rep, s') \<Longrightarrow> distinct (map uid s')"
  by (cases r) (auto simp: register_distinct)

subsection \<open>The referral code\<close>

text \<open>When \<^verbatim>\<open>Math.random().toString(36)\<close> has six digits or more after \<open>0.\<close>,
  the generated code has the claimed format.\<close>

lemma upper_alnum_upper_char: "base36_digit c \<Longrightarrow> upper_alnum (upper_char c)"
  by (auto simp: base36_digit_def upper_alnum_def upper_char_def)

lemma genReferral_format:
  assumes "random36 e = c0 # c1 # ds" and "6 \<le> length ds" and "list_all base36_digit (take 6 ds)"
  shows "referral_format (genReferral e)"
proof -
  from assms(1) have g: "genReferral e = ''GG'' @ map upper_char (take 6 ds)"
    by (simp add: genReferral_def substring_def toUpperCase_def)
  from assms(3) have "list_all upper_alnum (map upper_char (take 6 ds))"
    by (simp add: list_all_iff upper_alnum_upper_char)
  with g assms(2) show ?thesis by (simp add: referral_format_def)
qed

text \<open>
  Claim C3. The claim does not hold of the code: \<^verbatim>\<open>Math.random()\<close> can return
  0.5, which \<^verbatim>\<open>toString(36)\<close> writes \<open>0.i\<close>; \<^verbatim>\<open>substring(2,8)\<close> then has one
  character only. The registration succeeds and returns the code \<open>GGI\<close>, which is
  not the prefix followed by six characters.
\<close>

theorem short_referral_code:
  "genReferral (env0\<lparr>random36 := ''0.i''\<rparr>) = ''GGI''
   \<and> register (env0\<lparr>random36 := ''0.i''\<rparr>) [] (signup ''a@x.com'' (Some ''pw1'') None)
      = (Registered ''Registered successfully'' ''t:a@x.com'' ''GGI'',
         [new_User (env0\<lparr>random36 := ''0.i''\<rparr>) (signup ''a@x.com'' (Some ''pw1'') None)
            ''a@x.com'' ''h:pw1'' ''GGI''])
   \<and> \<not> referral_format ''GGI''"
proof -
  have g: "genReferral (env0\<lparr>random36 := ''0.i''\<rparr>) = ''GGI''"
    by code_simp
  have r: "register (env0\<lparr>random36 := ''0.i''\<rparr>) [] (signup ''a@x.com'' (Some ''pw1'') None)
      = (Registered ''Registered successfully'' ''t:a@x.com''
           (genReferral (env0\<lparr>random36 := ''0.i''\<rparr>)),
         [new_User (env0\<lparr>random36 := ''0.i''\<rparr>) (signup ''a@x.com'' (Some ''pw1'') None)
            ''a@x.com'' ''h:pw1'' (genReferral (env0\<lparr>random36 := ''0.i''\<rparr>))])"
    by (simp add: register_def register_valid_def User_findOne_def credit_sponsor_def
        save_new_def signup_def env0_def truthy_def)
  have f: "\<not> referral_format ''GGI''"
    by (simp add: referral_format_def)
  from g r f show ?thesis by simp
qed

subsection \<open>The token in the header\<close>

text \<open>
  Claim C10, as amended. The guard never looks at the scheme word. For a non-empty
  header it takes the second segment of \<^verbatim>\<open>split(' ')\<close>, which separates at every
  single space character and at nothing else: whatever space-free word \<open>w\<close> comes
  first, the token is the text between the first space and the next. If
  \<^verbatim>\<open>jwt.verify\<close> accepts that segment, the request is accepted; a header without
  any space has no second segment and is answered 401 "Invalid token", not "No
  token". (With "whitespace" in place of "space" the claim fails: a token that
  follows a tab is not found, as the counterexample shows.)
\<close>

theorem auth_space_segment:
  assumes "authorization req = Some h" and "h \<noteq> []"
  shows "(index (js_split (CHR '' '') h) 1 = Some t \<and> jwt_verify e (Some t) = Inr data
          \<longrightarrow> auth e req nxt = nxt (req\<lparr>req_user := Some data\<rparr>))
       \<and> (CHR '' '' \<notin> set w \<and> h = w @ CHR '' '' # rest
          \<longrightarrow> index (js_split (CHR '' '') h) 1 = Some (takeWhile (\<lambda>c. c \<noteq> CHR '' '') rest))
       \<and> (CHR '' '' \<notin> set h \<longrightarrow> auth e req nxt = Error 401 ''Invalid token'')"
proof (intro conjI impI)
  assume "index (js_split (CHR '' '') h) 1 = Some t \<and> jwt_verify e (Some t) = Inr data"
  with assms show "auth e req nxt = nxt (req\<lparr>req_user := Some data\<rparr>)"
    by (simp add: auth_def)
next
  assume a: "CHR '' '' \<notin> set w \<and> h = w @ CHR '' '' # rest"
  then have "js_split (CHR '' '') h = w # js_split (CHR '' '') rest"
    by (simp add: js_split_append)
  moreover have "js_split (CHR '' '') rest \<noteq> []" by (rule js_split_not_Nil)
  ultimately have "index (js_split (CHR '' '') h) 1 = Some (hd (js_split (CHR '' '') rest))"
    by (cases "js_split (CHR '' '') rest") (simp_all add: index_def)
  then show "index (js_split (CHR '' '') h) 1 = Some (takeWhile (\<lambda>c. c \<noteq> CHR '' '') rest)"
    by (simp add: hd_js_split)
next
  assume "CHR '' '' \<notin> set h"
  then have "js_split (CHR '' '') h = [h]" by (rule js_split_no_sep)
  with assms show "auth e req nxt = Error 401 ''Invalid token''"
    by (simp add: auth_def index_def jwt_verify_def)
qed

theorem auth_space_segment_witness:
  "auth env0 (bearer ''Basic t:a@x.com'') payment
     = payment ((bearer ''Basic t:a@x.com'')
         \<lparr>req_user := Some \<lparr>payload_id = 1, payload_email = ''a@x.com''\<rparr>\<rparr>)
   \<and> index (js_split (CHR '' '') ''Basic t:a@x.com'') 1 = Some ''t:a@x.com''
   \<and> auth env0 (bearer ''t:a@x.com'') payment = Error 401 ''Invalid token''"
proof -
  have a: "authorization (bearer ''Basic t:a@x.com'') = Some ''Basic t:a@x.com''"
      "''Basic t:a@x.com'' \<noteq> []"
    and b: "authorization (bearer ''t:a@x.com'') = Some ''t:a@x.com''" "''t:a@x.com'' \<noteq> []"
    by (simp_all add: bearer_def)
  have c: "index (js_split (CHR '' '') ''Basic t:a@x.com'') 1 = Some ''t:a@x.com''
      \<and> jwt_verify env0 (Some ''t:a@x.com'')
          = Inr \<lparr>payload_id = 1, payload_email = ''a@x.com''\<rparr>"
    by (simp add: index_def jwt_verify_def env0_def)
  have n: "CHR '' '' \<notin> set ''t:a@x.com''" by simp
  note one = auth_space_segment [OF a, where t = "''t:a@x.com''" and e = env0
      and data = "\<lparr>payload_id = 1, payload_email = ''a@x.com''\<rparr>" and nxt = payment
      and w = "''Basic''" and rest = "''t:a@x.com''"]
  note two = auth_space_segment [OF b, where t = "''t:a@x.com''" and e = env0
      and data = "\<lparr>payload_id = 1, payload_email = ''a@x.com''\<rparr>" and nxt = payment
      and w = "''Basic''" and rest = "''t:a@x.com''"]
  from one [THEN conjunct1] c
  have p1: "auth env0 (bearer ''Basic t:a@x.com'') payment
     = payment ((bearer ''Basic t:a@x.com'')
         \<lparr>req_user := Some \<lparr>payload_id = 1, payload_email = ''a@x.com''\<rparr>\<rparr>)"
    by (rule mp)
  from two [THEN conjunct2, THEN conjunct2] n
  have p3: "auth env0 (bearer ''t:a@x.com'') payment = Error 401 ''Invalid token''"
    by (rule mp)
  show ?thesis by (rule conjI [OF p1 conjI [OF c [THEN conjunct1] p3]])
qed

text \<open>The claim as stated fails: the second whitespace-separated segment of the
  header is a token that \<^verbatim>\<open>jwt.verify\<close> accepts, and the guard rejects the
  request.\<close>

theorem auth_whitespace_counterexample:
  "index (whitespace_split tab_header) 1 = Some ''t:a@x.com''
   \<and> jwt_verify env0 (Some ''t:a@x.com'') = Inr \<lparr>payload_id = 1, payload_email = ''a@x.com''\<rparr>
   \<and> auth env0 (bearer tab_header) payment = Error 401 ''Invalid token''"
  by (simp add: tab_header_def whitespace_def index_def jwt_verify_def env0_def auth_def
      bearer_def)

end
